theory Spec2Isabelle
  imports Complex_Main
begin

section \<open>The annealing schedule of the Sinkhorn loop and the dual scaling rule\<close>

text \<open>
  A shallow embedding of \<^verbatim>\<open>geomloss/ot/abstract_solvers/annealing.py\<close>
  (the function \<^verbatim>\<open>annealing_parameters\<close>) and of
  \<^verbatim>\<open>geomloss/backends/torch.py\<close> (the class \<^verbatim>\<open>UnbalancedWeight\<close>).

  Conventions of the embedding:
  \<^item> a Python \<^verbatim>\<open>float\<close> is a \<^typ>\<open>real\<close>: rounding, infinities and NaN are not
    modelled, so \<^verbatim>\<open>np.log\<close>, \<^verbatim>\<open>np.exp\<close> and \<^verbatim>\<open>np.floor\<close> are
    \<^const>\<open>ln\<close>, \<^const>\<open>exp\<close> and \<^const>\<open>floor\<close>. On the documented domain
    \<^verbatim>\<open>blur > 0\<close> the model is the source up to rounding; every statement that reads
    a logarithm assumes that domain;
  \<^item> a Python \<^verbatim>\<open>int\<close> is an \<^typ>\<open>int\<close>; the exponent \<^verbatim>\<open>p: int\<close> of the signature
    makes \<^verbatim>\<open>b ** p\<close> the integer power \<^const>\<open>power_int\<close>. A zero base with a
    negative exponent, where Python raises \<^verbatim>\<open>ZeroDivisionError\<close>, is outside the
    documented domain \<^verbatim>\<open>blur > 0\<close>, \<^verbatim>\<open>reach > 0\<close>;
  \<^item> \<^verbatim>\<open>Optional[T]\<close> is \<^typ>\<open>'a option\<close>, with \<^const>\<open>None\<close> for \<^verbatim>\<open>None\<close>;
  \<^item> an exception is the left summand of the result, one constructor for each
    \<^verbatim>\<open>raise\<close> of the source and for each implicit failure of a statement;
  \<^item> a local name that may be unbound is an \<^typ>\<open>'a option\<close>, \<^const>\<open>None\<close> while no
    assignment has run.
\<close>

subsection \<open>Errors and the result record\<close>

text \<open>The five \<^verbatim>\<open>raise ValueError(...)\<close> statements, in the order of the source.\<close>

datatype value_error =
    NIterNotPositive int
  | ScalingOutOfRange real
  | ScheduleUnspecified
  | ConstantScalingWithoutNIter
  | ScheduleTooSteep

datatype error =
    ValueError value_error
  | NotImplementedError
  | UnboundLocalError
  | IndexError
  | TypeError

record DescentParameters =
  diameter :: real
  jumps :: "nat list"
  eps_list :: "real list"
  blur_list :: "real list"
  rho_list :: "real option list"

subsection \<open>The number of iterations (lines 146 to 163)\<close>

text \<open>
  \<^verbatim>\<open>n_iter = (np.log(blur) - np.log(diameter)) / np.log(scaling)\<close> followed by
  \<^verbatim>\<open>n_iter = int(np.floor(n_iter)) + 2\<close>. The model floors the exact quotient. The
  source floors a quotient of rounded logarithms, which can fall just below an integer
  that the exact quotient reaches: for \<^verbatim>\<open>diameter=8, blur=0.25, scaling=0.5\<close> the
  exact quotient is 5 and the model derives 7, the rounded quotient is
  4.999999999999999 and the source derives 6. The derived number itself is therefore
  outside what this embedding can state about the source; the statements below use it
  only through this definition.
\<close>

definition derive_n_iter :: "real \<Rightarrow> real \<Rightarrow> real \<Rightarrow> int" where
  "derive_n_iter diam b s = \<lfloor>(ln b - ln diam) / ln s\<rfloor> + 2"

text \<open>
  The block \<^verbatim>\<open>if n_iter is None: ...\<close>: the fourth \<^verbatim>\<open>ValueError\<close> when the scaling
  is the constant 1, the derived number otherwise. Both options cannot be absent here,
  the third validation has excluded it; the model keeps that case as the source would
  run it, \<^verbatim>\<open>np.log(None)\<close> being a \<^const>\<open>TypeError\<close>.
\<close>

definition resolve_n_iter :: "real \<Rightarrow> real \<Rightarrow> int option \<Rightarrow> real option \<Rightarrow> error + int" where
  "resolve_n_iter diam b n_iter scaling =
     (case n_iter of
        Some n \<Rightarrow> Inr n
      | None \<Rightarrow>
          (case scaling of
             None \<Rightarrow> Inl TypeError
           | Some s \<Rightarrow>
               if s = 1 then Inl (ValueError ConstantScalingWithoutNIter)
               else Inr (derive_n_iter diam b s)))"

subsection \<open>The list of blur scales (lines 166 to 187)\<close>

text \<open>
  \<^verbatim>\<open>np.geomspace(start, stop, num)\<close> of the numerical library, for positive end
  points: \<^verbatim>\<open>num\<close> points on a geometric progression from \<^verbatim>\<open>start\<close> to
  \<^verbatim>\<open>stop\<close>, both included.
\<close>

definition geomspace :: "real \<Rightarrow> real \<Rightarrow> nat \<Rightarrow> real list" where
  "geomspace start stop num =
     map (\<lambda>i. start * (stop / start) powr (real i / real (num - 1))) [0..<num]"

text \<open>
  The three policies, in the order of the \<^verbatim>\<open>if\<close>/\<open>elif\<close>/\<open>else\<close> chain. The last one
  is \<^verbatim>\<open>np.exp(np.maximum(np.log(diameter) + np.arange(n_iter) * np.log(scaling),
  np.log(blur)))\<close>.
\<close>

definition make_blur_list :: "real \<Rightarrow> real \<Rightarrow> int \<Rightarrow> real option \<Rightarrow> real list" where
  "make_blur_list diam b n scaling =
     (if scaling = Some 1 then replicate (nat n) b
      else case scaling of
          None \<Rightarrow> if n = 1 then [b] else geomspace diam b (nat n)
        | Some s \<Rightarrow> map (\<lambda>i. exp (max (ln diam + real i * ln s) (ln b))) [0..<nat n])"

subsection \<open>The jumps between scales (lines 202 to 228)\<close>

text \<open>
  The loop \<^verbatim>\<open>for (i, blur) in enumerate(blur_list[1:])\<close>. Its state is the scale
  pointer \<^verbatim>\<open>k\<close> and the local name \<^verbatim>\<open>jumps\<close>, which is \<^const>\<open>None\<close> while it is
  unbound: \<^verbatim>\<open>jumps.append(i)\<close> then fails with \<^const>\<open>UnboundLocalError\<close>. The
  \<^verbatim>\<open>break\<close> returns the state at once. Reading \<^verbatim>\<open>scales[k]\<close> beyond the end of
  the list is an \<^const>\<open>IndexError\<close>.
\<close>

fun scan_jumps ::
  "real list \<Rightarrow> (nat \<times> real) list \<Rightarrow> nat \<Rightarrow> nat list option \<Rightarrow> error + (nat \<times> nat list option)"
where
  "scan_jumps scales [] k js = Inr (k, js)"
| "scan_jumps scales ((i, b) # rest) k js =
     (if length scales \<le> k then Inl IndexError
      else if b < scales ! k then
        (case js of
           None \<Rightarrow> Inl UnboundLocalError
         | Some l \<Rightarrow>
             (if length scales \<le> k + 1 then Inr (k + 1, Some (l @ [i]))
              else if b < scales ! (k + 1) then Inl (ValueError ScheduleTooSteep)
              else scan_jumps scales rest (k + 1) (Some (l @ [i]))))
      else scan_jumps scales rest k js)"

text \<open>
  The whole of step 6. In single-scale mode \<^verbatim>\<open>jumps = []\<close> is the only assignment
  to \<^verbatim>\<open>jumps\<close> in the function; the multiscale branch starts the loop with \<^verbatim>\<open>k = 0\<close>
  and \<^verbatim>\<open>jumps\<close> unbound, then raises \<^verbatim>\<open>NotImplementedError\<close> when
  \<^verbatim>\<open>k < len(scales)\<close>. The last case reads \<^verbatim>\<open>jumps\<close> for the returned tuple.
\<close>

definition find_jumps :: "real list option \<Rightarrow> real list \<Rightarrow> error + nat list" where
  "find_jumps scales bl =
     (case scales of
        None \<Rightarrow> Inr []
      | Some sc \<Rightarrow>
          if length sc < 2 then Inr []
          else
            (case scan_jumps sc (enumerate 0 (tl bl)) 0 None of
               Inl e \<Rightarrow> Inl e
             | Inr (k, js) \<Rightarrow>
                 if k < length sc then Inl NotImplementedError
                 else (case js of None \<Rightarrow> Inl UnboundLocalError | Some l \<Rightarrow> Inr l)))"

subsection \<open>The function \<^verbatim>\<open>annealing_parameters\<close>\<close>

definition annealing_parameters ::
  "real \<Rightarrow> int \<Rightarrow> real \<Rightarrow> real option \<Rightarrow> int option \<Rightarrow> real option \<Rightarrow> real list option
     \<Rightarrow> error + DescentParameters"
where
  "annealing_parameters diam p blur reach n_iter scaling scales =
     (if n_iter \<noteq> None \<and> the n_iter \<le> 0 then Inl (ValueError (NIterNotPositive (the n_iter)))
      else if scaling \<noteq> None \<and> (the scaling \<le> 0 \<or> the scaling > 1)
        then Inl (ValueError (ScalingOutOfRange (the scaling)))
      else if n_iter = None \<and> scaling = None then Inl (ValueError ScheduleUnspecified)
      else
        let diam' = max diam blur in
        (case resolve_n_iter diam' blur n_iter scaling of
           Inl e \<Rightarrow> Inl e
         | Inr n \<Rightarrow>
             let bl = make_blur_list diam' blur n scaling;
                 el = map (\<lambda>b. b powi p) bl;
                 rho = map_option (\<lambda>r. r powi p) reach;
                 rl = replicate (length bl) rho
             in (case find_jumps scales bl of
                   Inl e \<Rightarrow> Inl e
                 | Inr js \<Rightarrow>
                     Inr \<lparr>diameter = diam', jumps = js, eps_list = el,
                          blur_list = bl, rho_list = rl\<rparr>)))"

subsection \<open>The class \<^verbatim>\<open>UnbalancedWeight\<close>\<close>

text \<open>
  The two constants set by \<^verbatim>\<open>__init__\<close>. A tensor is the list of its entries, and the
  product of a number with a tensor multiplies every entry.
\<close>

record UnbalancedWeight =
  eps :: real
  rho :: real

definition forward :: "UnbalancedWeight \<Rightarrow> real list \<Rightarrow> real list" where
  "forward self x = map (\<lambda>v. (rho self + eps self / 2) * v) x"

definition backward :: "UnbalancedWeight \<Rightarrow> real list \<Rightarrow> real list" where
  "backward self g = map (\<lambda>v. (rho self + eps self) * v) g"

section \<open>The scan for jumps\<close>

text \<open>
  With \<^verbatim>\<open>jumps\<close> unbound and the pointer at the first scale, the loop fails at the
  first blur value below \<^verbatim>\<open>scales[0]\<close>, and leaves the state untouched when there
  is none.
\<close>

lemma scan_jumps_unbound:
  "0 < length sc \<Longrightarrow>
   scan_jumps sc xs 0 None =
     (if \<exists>b \<in> set (map snd xs). b < sc ! 0 then Inl UnboundLocalError else Inr (0, None))"
  by (induction xs) (auto simp: rev_bexI)

lemma map_snd_enumerate: "map snd (enumerate n xs) = xs"
  by (induction xs arbitrary: n) simp_all

lemma find_jumps_multiscale:
  assumes "2 \<le> length sc"
  shows "find_jumps (Some sc) bl =
     (if \<exists>b \<in> set (tl bl). b < sc ! 0 then Inl UnboundLocalError else Inl NotImplementedError)"
proof -
  have pos: "0 < length sc" using assms by (cases sc) simp_all
  have scan: "scan_jumps sc (enumerate 0 (tl bl)) 0 None =
      (if \<exists>b \<in> set (tl bl). b < sc ! 0 then Inl UnboundLocalError else Inr (0, None))"
    using scan_jumps_unbound [OF pos, of "enumerate 0 (tl bl)"]
    by (simp only: map_snd_enumerate)
  show ?thesis
    using assms pos by (simp add: find_jumps_def scan)
qed

lemma find_jumps_cases:
  "find_jumps scales bl = Inr [] \<or> find_jumps scales bl = Inl UnboundLocalError
   \<or> find_jumps scales bl = Inl NotImplementedError"
proof (cases scales)
  case None
  then show ?thesis by (simp add: find_jumps_def)
next
  case (Some sc)
  show ?thesis
  proof (cases "length sc < 2")
    case True
    with Some show ?thesis by (simp add: find_jumps_def)
  next
    case False
    then have "2 \<le> length sc" by simp
    from find_jumps_multiscale [OF this, of bl] Some show ?thesis by (simp split: if_splits)
  qed
qed

lemma find_jumps_single:
  "scales = None \<or> (\<exists>sc. scales = Some sc \<and> length sc < 2) \<Longrightarrow> find_jumps scales bl = Inr []"
  by (auto simp: find_jumps_def)

text \<open>
  Had \<^verbatim>\<open>jumps\<close> been bound before the loop, every advance of the pointer would go
  with one recorded jump: a scan that ends with \<^verbatim>\<open>k = len(scales)\<close>, the only state
  line 227 lets through, has recorded \<^verbatim>\<open>len(scales)\<close> jumps.
\<close>

lemma scan_jumps_bound_count:
  "scan_jumps sc xs k (Some l) = Inr (k', js) \<Longrightarrow>
   \<exists>l'. js = Some l' \<and> k' + length l = k + length l'"
proof (induction xs arbitrary: k l)
  case Nil
  then show ?case by auto
next
  case (Cons x xs)
  obtain i b where x: "x = (i, b)" by (cases x)
  from Cons.prems show ?case
    unfolding x
    by (auto split: if_splits dest!: Cons.IH)
qed

lemma scan_jumps_initialised_length:
  assumes "scan_jumps sc (enumerate 0 (tl bl)) 0 (Some []) = Inr (k, Some l)"
  shows "length l = k"
  using scan_jumps_bound_count [OF assms] by simp

section \<open>The blur schedule\<close>

text \<open>
  Facts on \<^const>\<open>make_blur_list\<close> and \<^const>\<open>derive_n_iter\<close>, for a positive
  \<^verbatim>\<open>blur\<close> and a diameter that line 143 has raised to \<^verbatim>\<open>blur\<close> at least:
  the length, the entries of each policy, the descent, the floor and the last entry.
\<close>

lemma length_make_blur_list: "length (make_blur_list d b n scaling) = nat n"
  by (auto simp: make_blur_list_def geomspace_def split: option.splits)

lemma derive_n_iter_ge_2:
  assumes "0 < b" "b \<le> d" "0 < s" "s < 1"
  shows "2 \<le> derive_n_iter d b s"
proof -
  have "ln b \<le> ln d" using assms by simp
  moreover have "ln s < 0" using assms by simp
  ultimately have "0 \<le> (ln b - ln d) / ln s"
    by (simp add: divide_nonpos_neg)
  then show ?thesis by (simp add: derive_n_iter_def)
qed

lemma exp_floor_closed:
  assumes "0 < d" "0 < b" "0 < s"
  shows "exp (max (ln d + real i * ln s) (ln b)) = max (d * s ^ i) b"
proof -
  have "exp (ln d + real i * ln s) = d * s ^ i"
    using assms by (simp add: exp_add exp_of_nat_mult)
  moreover have "exp (ln b) = b" using assms by simp
  moreover have "exp (max x y) = max (exp x) (exp y)" for x y :: real
    by (simp add: max_def)
  ultimately show ?thesis by simp
qed

lemma nth_make_blur_list_const:
  "i < nat n \<Longrightarrow> make_blur_list d b n (Some 1) ! i = b"
  by (simp add: make_blur_list_def)

lemma nth_make_blur_list_geom:
  "i < nat n \<Longrightarrow> n \<noteq> 1 \<Longrightarrow>
   make_blur_list d b n None ! i = d * (b / d) powr (real i / real (nat n - 1))"
  by (simp add: make_blur_list_def geomspace_def)

lemma nth_make_blur_list_scaled:
  "i < nat n \<Longrightarrow> s \<noteq> 1 \<Longrightarrow>
   make_blur_list d b n (Some s) ! i = exp (max (ln d + real i * ln s) (ln b))"
  by (simp add: make_blur_list_def)

lemma make_blur_list_scaled_closed:
  assumes "0 < d" "0 < b" "0 < s" "s \<noteq> 1"
  shows "make_blur_list d b n (Some s) = map (\<lambda>i. max (d * s ^ i) b) [0..<nat n]"
  using assms by (simp add: make_blur_list_def exp_floor_closed)

lemma geom_point_antitone:
  assumes "0 < b" "b \<le> d" "s \<le> t"
  shows "d * (b / d) powr t \<le> d * (b / d) powr (s::real)"
proof -
  have d: "0 < d" using assms by simp
  have "0 \<le> b / d" "b / d \<le> 1" using assms d by simp_all
  then have "(b / d) powr t \<le> (b / d) powr s"
    using assms(3) by (intro powr_mono') simp_all
  then show ?thesis using d by simp
qed

lemma geom_point_at_1:
  assumes "0 < b" "b \<le> d"
  shows "d * (b / d) powr 1 = (b::real)"
proof -
  have d: "0 < d" using assms by simp
  have "(b / d) powr 1 = b / d" using assms d by simp
  then show ?thesis using d by simp
qed

lemma make_blur_list_antitone:
  assumes "0 < b" "b \<le> d" "\<forall>s. scaling = Some s \<longrightarrow> 0 < s \<and> s \<le> 1"
    and "i \<le> j" "j < nat n"
  shows "make_blur_list d b n scaling ! j \<le> make_blur_list d b n scaling ! i"
proof (cases scaling)
  case None
  show ?thesis
  proof (cases "n = 1")
    case True
    with assms(4,5) have "i = 0" "j = 0" by simp_all
    then show ?thesis by simp
  next
    case False
    have "real i / real (nat n - 1) \<le> real j / real (nat n - 1)"
      using assms(4) by (simp add: divide_right_mono)
    from geom_point_antitone [OF assms(1,2) this] show ?thesis
      using assms(4,5) False by (simp add: None nth_make_blur_list_geom)
  qed
next
  case (Some s)
  with assms(3) have s: "0 < s" "s \<le> 1" by simp_all
  show ?thesis
  proof (cases "s = 1")
    case True
    with assms(4,5) show ?thesis by (simp add: Some nth_make_blur_list_const)
  next
    case False
    have "ln s \<le> 0" using s by simp
    then have "real j * ln s \<le> real i * ln s"
      using assms(4) by (simp add: mult_right_mono_neg)
    then have "max (ln d + real j * ln s) (ln b) \<le> max (ln d + real i * ln s) (ln b)"
      by (simp add: max_def)
    then show ?thesis
      using assms(4,5) False by (simp add: Some nth_make_blur_list_scaled)
  qed
qed

lemma make_blur_list_ge_blur:
  assumes "0 < b" "b \<le> d" "i < nat n"
  shows "b \<le> make_blur_list d b n scaling ! i"
proof (cases scaling)
  case None
  show ?thesis
  proof (cases "n = 1")
    case True
    with assms(3) show ?thesis by (simp add: None make_blur_list_def)
  next
    case False
    have "real i \<le> real (nat n - 1)" using assms(3) by simp
    moreover have "0 < real (nat n - 1)" using assms(3) False by simp
    ultimately have "real i / real (nat n - 1) \<le> 1" by simp
    from geom_point_antitone [OF assms(1,2) this] show ?thesis
      using assms False by (simp add: None nth_make_blur_list_geom)
  qed
next
  case (Some s)
  show ?thesis
  proof (cases "s = 1")
    case True
    with assms(3) show ?thesis by (simp add: Some nth_make_blur_list_const)
  next
    case False
    have "exp (ln b) \<le> exp (max (ln d + real i * ln s) (ln b))" by simp
    then show ?thesis
      using assms False by (simp add: Some nth_make_blur_list_scaled)
  qed
qed

lemma last_make_blur_list_const:
  "1 \<le> n \<Longrightarrow> last (make_blur_list d b n (Some 1)) = b"
  by (simp add: make_blur_list_def)

lemma last_make_blur_list_geom:
  assumes "0 < b" "b \<le> d" "1 \<le> n"
  shows "last (make_blur_list d b n None) = b"
proof (cases "n = 1")
  case True
  then show ?thesis by (simp add: make_blur_list_def)
next
  case False
  with assms(3) have n: "nat n - 1 < nat n" "0 < real (nat n - 1)" by simp_all
  have ne: "make_blur_list d b n None \<noteq> []"
    using assms(3) length_make_blur_list [of d b n None] by auto
  have "last (make_blur_list d b n None) = make_blur_list d b n None ! (nat n - 1)"
    using ne by (simp add: last_conv_nth length_make_blur_list)
  also have "\<dots> = d * (b / d) powr (real (nat n - 1) / real (nat n - 1))"
    using n(1) False by (rule nth_make_blur_list_geom)
  also have "\<dots> = d * (b / d) powr 1" using n(2) by simp
  also have "\<dots> = b" using assms(1,2) by (rule geom_point_at_1)
  finally show ?thesis .
qed

lemma last_make_blur_list_scaled:
  assumes "0 < b" "b \<le> d" "0 < s" "s \<noteq> 1" "1 \<le> n"
  shows "last (make_blur_list d b n (Some s)) = max (d * s ^ (nat n - 1)) b"
proof -
  have n: "nat n - 1 < nat n" using assms(5) by simp
  have ne: "make_blur_list d b n (Some s) \<noteq> []"
    using assms(5) length_make_blur_list [of d b n "Some s"] by auto
  have "last (make_blur_list d b n (Some s)) = make_blur_list d b n (Some s) ! (nat n - 1)"
    using ne by (simp add: last_conv_nth length_make_blur_list)
  also have "\<dots> = exp (max (ln d + real (nat n - 1) * ln s) (ln b))"
    using n assms(4) by (rule nth_make_blur_list_scaled)
  also have "\<dots> = max (d * s ^ (nat n - 1)) b"
    using assms by (intro exp_floor_closed) simp_all
  finally show ?thesis .
qed

lemma derived_reaches_floor:
  assumes "0 < b" "b \<le> d" "0 < s" "s < 1"
  shows "d * s ^ (nat (derive_n_iter d b s) - 1) \<le> b"
proof -
  define q where "q = (ln b - ln d) / ln s"
  define m where "m = nat (derive_n_iter d b s) - 1"
  have d: "0 < d" using assms by simp
  have lns: "ln s < 0" using assms by simp
  have "2 \<le> derive_n_iter d b s" using assms by (rule derive_n_iter_ge_2)
  then have "int m = derive_n_iter d b s - 1"
    unfolding m_def by arith
  then have "int m = \<lfloor>q\<rfloor> + 1"
    by (simp add: q_def derive_n_iter_def)
  then have "real m = of_int (\<lfloor>q\<rfloor> + 1)" by (metis of_int_of_nat_eq)
  then have "q < real m" by simp
  then have "real m * ln s < q * ln s" using lns by simp
  also have "q * ln s = ln b - ln d" using lns by (simp add: q_def)
  finally have "ln d + real m * ln s \<le> ln b" by simp
  then have "exp (ln d + real m * ln s) \<le> exp (ln b)" by simp
  then have "d * s ^ m \<le> b"
    using assms d by (simp add: exp_add exp_of_nat_mult)
  then show ?thesis by (simp add: m_def)
qed

lemma last_make_blur_list_derived:
  assumes "0 < b" "b \<le> d" "0 < s" "s < 1"
  shows "last (make_blur_list d b (derive_n_iter d b s) (Some s)) = b"
proof -
  have "2 \<le> derive_n_iter d b s" using assms by (rule derive_n_iter_ge_2)
  then have "1 \<le> derive_n_iter d b s" by simp
  with assms have "last (make_blur_list d b (derive_n_iter d b s) (Some s))
      = max (d * s ^ (nat (derive_n_iter d b s) - 1)) b"
    by (intro last_make_blur_list_scaled) simp_all
  also have "\<dots> = b" using derived_reaches_floor [OF assms] by simp
  finally show ?thesis .
qed

section \<open>The call in single-scale mode\<close>

text \<open>
  Past the validations, with no scales or fewer than two, the call returns the record
  built from the blur list, with \<^verbatim>\<open>jumps = []\<close>.
\<close>

lemma resolve_n_iter_valid:
  assumes "0 < blur"
    and "\<forall>n. n_iter = Some n \<longrightarrow> 1 \<le> n"
    and "\<forall>s. scaling = Some s \<longrightarrow> 0 < s \<and> s \<le> 1"
    and "n_iter \<noteq> None \<or> scaling \<noteq> None"
    and "n_iter = None \<longrightarrow> scaling \<noteq> Some 1"
  shows "\<exists>n. resolve_n_iter (max diam blur) blur n_iter scaling = Inr n \<and> 1 \<le> n
           \<and> n = (case n_iter of Some m \<Rightarrow> m
                  | None \<Rightarrow> derive_n_iter (max diam blur) blur (the scaling))"
proof (cases n_iter)
  case None
  with assms(4) obtain s where s: "scaling = Some s" by auto
  with assms(3,5) None have "0 < s" "s < 1" by auto
  with assms(1) have "2 \<le> derive_n_iter (max diam blur) blur s"
    by (intro derive_n_iter_ge_2) simp_all
  with \<open>s < 1\<close> show ?thesis by (simp add: None s resolve_n_iter_def)
next
  case (Some n)
  with assms(2) show ?thesis by (simp add: resolve_n_iter_def)
qed

lemma annealing_parameters_single_scale:
  assumes "\<forall>n. n_iter = Some n \<longrightarrow> 1 \<le> n"
    and "\<forall>s. scaling = Some s \<longrightarrow> 0 < s \<and> s \<le> 1"
    and "resolve_n_iter (max diam blur) blur n_iter scaling = Inr n"
    and "scales = None \<or> (\<exists>sc. scales = Some sc \<and> length sc < 2)"
  shows "annealing_parameters diam p blur reach n_iter scaling scales =
     Inr \<lparr>diameter = max diam blur, jumps = [],
          eps_list = map (\<lambda>b. b powi p) (make_blur_list (max diam blur) blur n scaling),
          blur_list = make_blur_list (max diam blur) blur n scaling,
          rho_list = replicate (nat n) (map_option (\<lambda>r. r powi p) reach)\<rparr>"
proof -
  have a: "\<not> (n_iter \<noteq> None \<and> the n_iter \<le> 0)" using assms(1) by auto
  have b: "\<not> (scaling \<noteq> None \<and> (the scaling \<le> 0 \<or> the scaling > 1))"
    using assms(2) by auto
  have c: "\<not> (n_iter = None \<and> scaling = None)"
    using assms(3) by (auto simp: resolve_n_iter_def split: option.splits)
  show ?thesis
    unfolding annealing_parameters_def
    by (simp only: a b c if_False Let_def assms(3) sum.case
        find_jumps_single [OF assms(4)] length_make_blur_list)
qed

lemma derive_n_iter_example: "derive_n_iter 1 (1/100) (1/10) = 4"
proof -
  have "ln ((1/10 :: real) ^ 2) = 2 * ln (1/10)" by (simp add: ln_realpow)
  moreover have "(1/10 :: real) ^ 2 = 1/100" by (simp add: power2_eq_square)
  ultimately have "ln (1/100 :: real) = 2 * ln (1/10)" by simp
  moreover have "ln (1/10 :: real) \<noteq> 0" by simp
  ultimately have "(ln (1/100) - ln 1) / ln (1/10 :: real) = 2" by simp
  then show ?thesis unfolding derive_n_iter_def by simp
qed

lemma blur_list_example:
  "make_blur_list 1 (1/100) 4 (Some (1/10)) = [1, 1/10, 1/100, 1/100]"
  by (simp add: make_blur_list_scaled_closed upt_rec power3_eq_cube power2_eq_square)

text \<open>
  The example of the comment at lines 160 to 163, \<^verbatim>\<open>diameter=1, blur=0.01,
  scaling=0.1\<close>, over the reals: four iterations and
  \<^verbatim>\<open>blur_list = [1, 0.1, 0.01, 0.01]\<close>.
\<close>

lemma annealing_parameters_documented_example:
  "annealing_parameters 1 2 (1/100) None None (Some (1/10)) None =
     Inr \<lparr>diameter = 1, jumps = [], eps_list = [1, 1/100, 1/10000, 1/10000],
          blur_list = [1, 1/10, 1/100, 1/100], rho_list = [None, None, None, None]\<rparr>"
proof -
  have res: "resolve_n_iter (max 1 (1/100)) (1/100) None (Some (1/10)) = Inr 4"
    by (simp add: resolve_n_iter_def derive_n_iter_example)
  have "annealing_parameters 1 2 (1/100) None None (Some (1/10)) None =
     Inr \<lparr>diameter = max 1 (1/100), jumps = [],
          eps_list = map (\<lambda>b. b powi 2) (make_blur_list (max 1 (1/100)) (1/100) 4 (Some (1/10))),
          blur_list = make_blur_list (max 1 (1/100)) (1/100) 4 (Some (1/10)),
          rho_list = replicate (nat 4) (map_option (\<lambda>r. r powi 2) None)\<rparr>"
    by (intro annealing_parameters_single_scale res) simp_all
  then show ?thesis
    by (simp add: blur_list_example eval_nat_numeral power2_eq_square)
qed

section \<open>The claims on the control flow\<close>

text \<open>
  C1. In multiscale mode the claim expects a list of \<^verbatim>\<open>len(scales) - 1\<close> jumps. The
  code, run on \<^verbatim>\<open>diameter=1, p=2, blur=1, n_iter=3, scaling=1, scales=[2, 1]\<close>,
  builds \<^verbatim>\<open>blur_list = [1, 1, 1]\<close>, finds \<^verbatim>\<open>1 < scales[0]\<close> at the first step of
  the loop and fails in \<^verbatim>\<open>jumps.append(0)\<close>, the name \<^verbatim>\<open>jumps\<close> being unbound.
\<close>

theorem multiscale_jumps_unbound:
  "annealing_parameters 1 2 1 None (Some 3) (Some 1) (Some [2, 1]) = Inl UnboundLocalError"
  by (simp add: annealing_parameters_def resolve_n_iter_def make_blur_list_def find_jumps_def
      eval_nat_numeral)

text \<open>
  C4. The call ends in one of the four validation errors (the \<^verbatim>\<open>ValueError\<close> of lines
  127, 132, 137 and 148) exactly when \<^verbatim>\<open>n_iter\<close> is given and not positive, or
  \<^verbatim>\<open>scaling\<close> is given and outside \<^verbatim>\<open>(0, 1]\<close>, or both are absent, or
  \<^verbatim>\<open>scaling == 1\<close> while \<^verbatim>\<open>n_iter\<close> is absent. The result is then the error
  alone, no record.
\<close>

theorem validation_errors:
  "(\<exists>v. annealing_parameters diam p blur reach n_iter scaling scales = Inl (ValueError v)
        \<and> v \<noteq> ScheduleTooSteep)
   = ((\<exists>n. n_iter = Some n \<and> n \<le> 0)
      \<or> (\<exists>s. scaling = Some s \<and> (s \<le> 0 \<or> 1 < s))
      \<or> (n_iter = None \<and> scaling = None)
      \<or> (n_iter = None \<and> scaling = Some 1))"
proof (cases n_iter)
  case None
  note n = None
  show ?thesis
  proof (cases scaling)
    case None
    with n show ?thesis by (simp add: annealing_parameters_def)
  next
    case (Some s)
    show ?thesis
      using find_jumps_cases [of scales "make_blur_list (max diam blur) blur (derive_n_iter (max diam blur) blur s) (Some s)"]
      by (auto simp: n Some annealing_parameters_def resolve_n_iter_def Let_def)
  qed
next
  case (Some n)
  show ?thesis
    using find_jumps_cases [of scales "make_blur_list (max diam blur) blur n scaling"]
    by (cases scaling) (auto simp: Some annealing_parameters_def resolve_n_iter_def Let_def)
qed

theorem validation_errors_witness:
  "\<exists>v. annealing_parameters 1 2 1 None (Some 0) None None = Inl (ValueError v)
       \<and> v \<noteq> ScheduleTooSteep"
  using validation_errors [where diam = 1 and p = 2 and blur = 1 and reach = None
      and n_iter = "Some 0" and scaling = None and scales = None]
  by simp

text \<open>
  C5. The claim expects the configuration error when a blur value is below two
  successive scales. The code, run on
  \<^verbatim>\<open>diameter=1, p=2, blur=0.25, n_iter=2, scaling=1, scales=[1, 0.5]\<close>, fails
  earlier, in \<^verbatim>\<open>jumps.append(0)\<close>, with the unbound name; the same scan started with
  \<^verbatim>\<open>jumps = []\<close> reaches line 221 and raises the configuration error.
\<close>

theorem steep_schedule_unbound:
  "annealing_parameters 1 2 (1/4) None (Some 2) (Some 1) (Some [1, 1/2]) = Inl UnboundLocalError
   \<and> scan_jumps [1, 1/2] (enumerate 0 (tl [1/4, 1/4])) 0 (Some [])
       = Inl (ValueError ScheduleTooSteep)"
  by (simp add: annealing_parameters_def resolve_n_iter_def make_blur_list_def find_jumps_def
      eval_nat_numeral)

text \<open>
  C10. With at least two scales and the validations passed, the call never returns a
  record: it fails with the unbound name \<^verbatim>\<open>jumps\<close> when some entry of
  \<^verbatim>\<open>blur_list[1:]\<close> is below \<^verbatim>\<open>scales[0]\<close>, and with
  \<^verbatim>\<open>NotImplementedError\<close> otherwise, the pointer \<^verbatim>\<open>k\<close> being still 0.
\<close>

theorem multiscale_never_returns:
  assumes "2 \<le> length sc"
    and "\<forall>n. n_iter = Some n \<longrightarrow> 0 < n"
    and "\<forall>s. scaling = Some s \<longrightarrow> 0 < s \<and> s \<le> 1"
    and "n_iter \<noteq> None \<or> scaling \<noteq> None"
    and "n_iter = None \<longrightarrow> scaling \<noteq> Some 1"
  shows "annealing_parameters diam p blur reach n_iter scaling (Some sc) =
     (if \<exists>b \<in> set (tl (make_blur_list (max diam blur) blur
                (case n_iter of Some n \<Rightarrow> n
                 | None \<Rightarrow> derive_n_iter (max diam blur) blur (the scaling)) scaling)).
           b < sc ! 0
      then Inl UnboundLocalError else Inl NotImplementedError)"
proof (cases n_iter)
  case None
  with assms(4) obtain s where s: "scaling = Some s" by auto
  with assms(3,5) None have "0 < s" "s \<le> 1" "s \<noteq> 1" by auto
  then show ?thesis
    by (simp add: None s annealing_parameters_def resolve_n_iter_def Let_def
        find_jumps_multiscale [OF assms(1)])
next
  case (Some n)
  with assms(2) have "0 < n" by simp
  then show ?thesis
    using assms(3)
    by (cases scaling) (simp_all add: Some annealing_parameters_def resolve_n_iter_def Let_def
        find_jumps_multiscale [OF assms(1)])
qed

theorem multiscale_never_returns_witness:
  "2 \<le> length [2, 1 :: real]
   \<and> annealing_parameters 1 2 3 None (Some 2) (Some 1) (Some [2, 1]) = Inl NotImplementedError"
  using multiscale_never_returns [where sc = "[2, 1]" and n_iter = "Some 2"
      and scaling = "Some 1" and diam = 1 and blur = 3 and p = 2 and reach = None]
  by (simp add: make_blur_list_def)

section \<open>The claims on the returned lists\<close>

text \<open>
  In the statements below a valid configuration has a positive \<^verbatim>\<open>blur\<close>, passes the
  four validations, and is in single-scale mode: no other call returns a record.
\<close>

text \<open>
  C2, as amended. For a valid configuration with \<^verbatim>\<open>scaling\<close> absent or in
  \<^verbatim>\<open>(0, 1)\<close>, the last entry of \<^verbatim>\<open>blur_list\<close> is \<^verbatim>\<open>blur\<close> when
  \<^verbatim>\<open>n_iter\<close> or \<^verbatim>\<open>scaling\<close> is absent; when both are given it is the larger of
  \<^verbatim>\<open>diameter * scaling ** (n_iter - 1)\<close> and \<^verbatim>\<open>blur\<close>, with \<^verbatim>\<open>diameter\<close>
  the value of line 143.
\<close>

theorem last_blur_is_blur:
  assumes "0 < blur"
    and "\<forall>n. n_iter = Some n \<longrightarrow> 1 \<le> n"
    and "\<forall>s. scaling = Some s \<longrightarrow> 0 < s \<and> s < 1"
    and "n_iter \<noteq> None \<or> scaling \<noteq> None"
    and "scales = None \<or> (\<exists>sc. scales = Some sc \<and> length sc < 2)"
  shows "\<exists>r. annealing_parameters diam p blur reach n_iter scaling scales = Inr r
     \<and> (n_iter = None \<or> scaling = None \<longrightarrow> last (blur_list r) = blur)
     \<and> (\<forall>n s. n_iter = Some n \<and> scaling = Some s \<longrightarrow>
           last (blur_list r) = max (max diam blur * s ^ (nat n - 1)) blur)"
proof -
  have v3: "\<forall>s. scaling = Some s \<longrightarrow> 0 < s \<and> s \<le> 1" using assms(3) by auto
  have v5: "n_iter = None \<longrightarrow> scaling \<noteq> Some 1" using assms(3) by auto
  from resolve_n_iter_valid [OF assms(1,2) v3 assms(4) v5, of diam]
  obtain n where n: "resolve_n_iter (max diam blur) blur n_iter scaling = Inr n" "1 \<le> n"
    "n = (case n_iter of Some m \<Rightarrow> m
          | None \<Rightarrow> derive_n_iter (max diam blur) blur (the scaling))"
    by blast
  note r = annealing_parameters_single_scale [OF assms(2) v3 n(1) assms(5), of p reach]
  have le: "blur \<le> max diam blur" by simp
  have "last (make_blur_list (max diam blur) blur n scaling) = blur"
    if "n_iter = None \<or> scaling = None"
  proof (cases scaling)
    case None
    then show ?thesis using last_make_blur_list_geom [OF assms(1) le n(2)] by simp
  next
    case (Some s)
    with that have "n_iter = None" by simp
    with n(3) Some have "n = derive_n_iter (max diam blur) blur s" by simp
    moreover have "0 < s" "s < 1" using assms(3) Some by simp_all
    ultimately show ?thesis
      using last_make_blur_list_derived [OF assms(1) le] Some by simp
  qed
  moreover have "last (make_blur_list (max diam blur) blur n scaling)
        = max (max diam blur * s ^ (nat m - 1)) blur"
    if "n_iter = Some m \<and> scaling = Some s" for m s
  proof -
    from that n(3) have "n = m" by simp
    moreover have "0 < s" "s \<noteq> 1" using assms(3) that by auto
    ultimately show ?thesis
      using last_make_blur_list_scaled [OF assms(1) le _ _ n(2), of s] that by simp
  qed
  ultimately show ?thesis unfolding r by auto
qed

theorem last_blur_is_blur_witness:
  "0 < (1/10 :: real)
   \<and> (\<exists>r. annealing_parameters 10 2 (1/10) None (Some 3) None None = Inr r
        \<and> last (blur_list r) = 1/10)"
  using last_blur_is_blur [where blur = "1/10" and n_iter = "Some 3" and scaling = None
      and scales = None and diam = 10 and p = 2 and reach = None]
  by simp

text \<open>
  The claim as stated fails when both are given and the steps are too few:
  \<^verbatim>\<open>diameter=1, blur=0.25, n_iter=2, scaling=0.5\<close> gives
  \<^verbatim>\<open>blur_list = [1, 0.5]\<close>, which ends above \<^verbatim>\<open>blur\<close>.
\<close>

theorem last_blur_is_blur_counterexample:
  "annealing_parameters 1 2 (1/4) None (Some 2) (Some (1/2)) None =
     Inr \<lparr>diameter = 1, jumps = [], eps_list = [1, 1/4], blur_list = [1, 1/2],
          rho_list = [None, None]\<rparr>
   \<and> last [1, 1/2 :: real] \<noteq> 1/4"
  by (simp add: annealing_parameters_def resolve_n_iter_def find_jumps_def
      make_blur_list_scaled_closed upt_rec eval_nat_numeral)

text \<open>
  C6. For a valid configuration the three lists have the same length, which is
  \<^verbatim>\<open>n_iter\<close> (given or derived) and at least 1, and
  \<^verbatim>\<open>eps_list[i] == blur_list[i] ** p\<close> at every index.
\<close>

theorem lists_length_and_eps:
  assumes "0 < blur"
    and "\<forall>n. n_iter = Some n \<longrightarrow> 1 \<le> n"
    and "\<forall>s. scaling = Some s \<longrightarrow> 0 < s \<and> s \<le> 1"
    and "n_iter \<noteq> None \<or> scaling \<noteq> None"
    and "n_iter = None \<longrightarrow> scaling \<noteq> Some 1"
    and "scales = None \<or> (\<exists>sc. scales = Some sc \<and> length sc < 2)"
  shows "\<exists>r. annealing_parameters diam p blur reach n_iter scaling scales = Inr r
     \<and> int (length (blur_list r)) =
         (case n_iter of Some m \<Rightarrow> m
          | None \<Rightarrow> derive_n_iter (max diam blur) blur (the scaling))
     \<and> length (eps_list r) = length (blur_list r)
     \<and> length (rho_list r) = length (blur_list r)
     \<and> 1 \<le> length (blur_list r)
     \<and> (\<forall>i < length (blur_list r). eps_list r ! i = blur_list r ! i powi p)"
proof -
  from resolve_n_iter_valid [OF assms(1-5), of diam]
  obtain n where n: "resolve_n_iter (max diam blur) blur n_iter scaling = Inr n" "1 \<le> n"
    "n = (case n_iter of Some m \<Rightarrow> m
          | None \<Rightarrow> derive_n_iter (max diam blur) blur (the scaling))"
    by blast
  note r = annealing_parameters_single_scale [OF assms(2,3) n(1) assms(6), of p reach]
  have "int (nat n) = n" "1 \<le> nat n" using n(2) by simp_all
  then show ?thesis
    unfolding r using n(3) by (simp add: length_make_blur_list)
qed

theorem lists_length_and_eps_witness:
  "0 < (2 :: real)
   \<and> (\<exists>r. annealing_parameters 1 2 2 None (Some 5) (Some 1) None = Inr r
        \<and> int (length (blur_list r)) = 5
        \<and> length (eps_list r) = length (blur_list r)
        \<and> length (rho_list r) = length (blur_list r)
        \<and> 1 \<le> length (blur_list r)
        \<and> (\<forall>i < length (blur_list r). eps_list r ! i = blur_list r ! i powi 2))"
  using lists_length_and_eps [where blur = 2 and n_iter = "Some 5" and scaling = "Some 1"
      and scales = None and diam = 1 and p = 2 and reach = None]
  by simp

text \<open>
  C7. For a valid configuration, with \<^verbatim>\<open>reach\<close> absent or positive, \<^verbatim>\<open>rho_list\<close>
  has \<^verbatim>\<open>n_iter\<close> entries (given or derived), at least one, as many as
  \<^verbatim>\<open>blur_list\<close>, and is constant: it is that many copies of \<^verbatim>\<open>None\<close> when
  \<^verbatim>\<open>reach\<close> is absent, and of \<^verbatim>\<open>reach ** p\<close> when it is given.
\<close>

theorem rho_list_constant:
  assumes "0 < blur"
    and "\<forall>n. n_iter = Some n \<longrightarrow> 1 \<le> n"
    and "\<forall>s. scaling = Some s \<longrightarrow> 0 < s \<and> s \<le> 1"
    and "n_iter \<noteq> None \<or> scaling \<noteq> None"
    and "n_iter = None \<longrightarrow> scaling \<noteq> Some 1"
    and "scales = None \<or> (\<exists>sc. scales = Some sc \<and> length sc < 2)"
    and "\<forall>v. reach = Some v \<longrightarrow> 0 < v"
  shows "\<exists>r. annealing_parameters diam p blur reach n_iter scaling scales = Inr r
     \<and> int (length (rho_list r)) =
         (case n_iter of Some m \<Rightarrow> m
          | None \<Rightarrow> derive_n_iter (max diam blur) blur (the scaling))
     \<and> 1 \<le> length (rho_list r)
     \<and> length (rho_list r) = length (blur_list r)
     \<and> rho_list r = replicate (length (rho_list r))
          (case reach of None \<Rightarrow> None | Some v \<Rightarrow> Some (v powi p))
     \<and> (reach = None \<longrightarrow> (\<forall>i < length (rho_list r). rho_list r ! i = None))
     \<and> (\<forall>v. reach = Some v \<longrightarrow> (\<forall>i < length (rho_list r). rho_list r ! i = Some (v powi p)))"
proof -
  from resolve_n_iter_valid [OF assms(1-5), of diam]
  obtain n where n: "resolve_n_iter (max diam blur) blur n_iter scaling = Inr n" "1 \<le> n"
    "n = (case n_iter of Some m \<Rightarrow> m
          | None \<Rightarrow> derive_n_iter (max diam blur) blur (the scaling))"
    by blast
  note r = annealing_parameters_single_scale [OF assms(2,3) n(1) assms(6), of p reach]
  have len: "int (nat n) = n" "1 \<le> nat n" using n(2) by simp_all
  have rho: "map_option (\<lambda>r. r powi p) reach
      = (case reach of None \<Rightarrow> None | Some v \<Rightarrow> Some (v powi p))"
    by (cases reach) simp_all
  show ?thesis
    unfolding r using len n(3) by (simp add: length_make_blur_list rho)
qed

theorem rho_list_constant_witness:
  "0 < (1 :: real) \<and> 0 < (3 :: real)
   \<and> (\<exists>r. annealing_parameters 1 2 1 (Some 3) (Some 2) (Some 1) (Some [1]) = Inr r
        \<and> int (length (rho_list r)) = 2
        \<and> 1 \<le> length (rho_list r)
        \<and> length (rho_list r) = length (blur_list r)
        \<and> rho_list r = replicate (length (rho_list r)) (Some (3 powi 2))
        \<and> (\<forall>i < length (rho_list r). rho_list r ! i = Some (3 powi 2)))"
  using rho_list_constant [where blur = 1 and n_iter = "Some 2" and scaling = "Some 1"
      and scales = "Some [1]" and diam = 1 and p = 2 and reach = "Some 3"]
  by simp

text \<open>
  C9, as amended. For a valid configuration \<^verbatim>\<open>blur_list\<close> never increases and
  every entry is at least \<^verbatim>\<open>blur\<close>, under each of the three policies. The last
  entry is \<^verbatim>\<open>blur\<close> when \<^verbatim>\<open>scaling\<close> is 1 or absent, or \<^verbatim>\<open>n_iter\<close> is
  absent; when both are given and \<^verbatim>\<open>scaling < 1\<close>, it is \<^verbatim>\<open>blur\<close> exactly when
  \<^verbatim>\<open>diameter * scaling ** (n_iter - 1) <= blur\<close>.
\<close>

theorem blur_list_descends_to_floor:
  assumes "0 < blur"
    and "\<forall>n. n_iter = Some n \<longrightarrow> 1 \<le> n"
    and "\<forall>s. scaling = Some s \<longrightarrow> 0 < s \<and> s \<le> 1"
    and "n_iter \<noteq> None \<or> scaling \<noteq> None"
    and "n_iter = None \<longrightarrow> scaling \<noteq> Some 1"
    and "scales = None \<or> (\<exists>sc. scales = Some sc \<and> length sc < 2)"
  shows "\<exists>r. annealing_parameters diam p blur reach n_iter scaling scales = Inr r
     \<and> sorted_wrt (\<lambda>x y. y \<le> x) (blur_list r)
     \<and> (\<forall>x \<in> set (blur_list r). blur \<le> x)
     \<and> (scaling = Some 1 \<or> scaling = None \<or> n_iter = None \<longrightarrow> last (blur_list r) = blur)
     \<and> (\<forall>n s. n_iter = Some n \<and> scaling = Some s \<and> s \<noteq> 1 \<longrightarrow>
           (last (blur_list r) = blur) = (max diam blur * s ^ (nat n - 1) \<le> blur))"
proof -
  from resolve_n_iter_valid [OF assms(1-5), of diam]
  obtain n where n: "resolve_n_iter (max diam blur) blur n_iter scaling = Inr n" "1 \<le> n"
    "n = (case n_iter of Some m \<Rightarrow> m
          | None \<Rightarrow> derive_n_iter (max diam blur) blur (the scaling))"
    by blast
  note r = annealing_parameters_single_scale [OF assms(2,3) n(1) assms(6), of p reach]
  define bl where "bl = make_blur_list (max diam blur) blur n scaling"
  have le: "blur \<le> max diam blur" by simp
  have len: "length bl = nat n" by (simp add: bl_def length_make_blur_list)
  have sorted: "sorted_wrt (\<lambda>x y. y \<le> x) bl"
  proof (unfold sorted_wrt_iff_nth_less, intro allI impI)
    fix i j
    assume "i < j" "j < length bl"
    then have "i \<le> j" "j < nat n" by (simp_all add: len)
    from make_blur_list_antitone [OF assms(1) le assms(3) this]
    show "bl ! j \<le> bl ! i" by (simp add: bl_def)
  qed
  have floor: "\<forall>x \<in> set bl. blur \<le> x"
  proof
    fix x
    assume "x \<in> set bl"
    then obtain i where "i < nat n" "x = bl ! i"
      by (auto simp: in_set_conv_nth len)
    with make_blur_list_ge_blur [OF assms(1) le, of i n scaling]
    show "blur \<le> x" by (simp add: bl_def)
  qed
  have reach_floor: "last bl = blur" if "scaling = Some 1 \<or> scaling = None \<or> n_iter = None"
  proof (cases scaling)
    case None
    then show ?thesis
      using last_make_blur_list_geom [OF assms(1) le n(2)] by (simp add: bl_def)
  next
    case (Some s)
    show ?thesis
    proof (cases "s = 1")
      case True
      then show ?thesis
        using last_make_blur_list_const [OF n(2)] Some by (simp add: bl_def)
    next
      case False
      with that Some have "n_iter = None" by simp
      with n(3) Some have "n = derive_n_iter (max diam blur) blur s" by simp
      moreover have "0 < s" "s < 1" using assms(3) Some False by auto
      ultimately show ?thesis
        using last_make_blur_list_derived [OF assms(1) le] Some by (simp add: bl_def)
    qed
  qed
  have both: "(last bl = blur) = (max diam blur * s ^ (nat m - 1) \<le> blur)"
    if "n_iter = Some m \<and> scaling = Some s \<and> s \<noteq> 1" for m s
  proof -
    from that n(3) have "n = m" by simp
    moreover have "0 < s" "s \<noteq> 1" using assms(3) that by auto
    ultimately have "last bl = max (max diam blur * s ^ (nat m - 1)) blur"
      using last_make_blur_list_scaled [OF assms(1) le _ _ n(2), of s] that
      by (simp add: bl_def)
    then show ?thesis by (auto simp: max_def)
  qed
  show ?thesis
    unfolding r using sorted floor reach_floor both unfolding bl_def by auto
qed

theorem blur_list_descends_to_floor_witness:
  "0 < (1 :: real)
   \<and> (\<exists>r. annealing_parameters 100 2 1 None (Some 3) None None = Inr r
        \<and> sorted_wrt (\<lambda>x y. y \<le> x) (blur_list r)
        \<and> (\<forall>x \<in> set (blur_list r). 1 \<le> x)
        \<and> last (blur_list r) = 1)"
  using blur_list_descends_to_floor [where blur = 1 and n_iter = "Some 3"
      and scaling = None and scales = None and diam = 100 and p = 2 and reach = None]
  by simp

text \<open>
  The claim as stated fails at \<^verbatim>\<open>diameter=8, blur=1, n_iter=3, scaling=0.5\<close>:
  \<^verbatim>\<open>blur_list = [8, 4, 2]\<close> never reaches the floor.
\<close>

theorem blur_list_descends_to_floor_counterexample:
  "annealing_parameters 8 2 1 None (Some 3) (Some (1/2)) None =
     Inr \<lparr>diameter = 8, jumps = [], eps_list = [64, 16, 4], blur_list = [8, 4, 2],
          rho_list = [None, None, None]\<rparr>
   \<and> (1::real) \<notin> set [8, 4, 2]"
  by (simp add: annealing_parameters_def resolve_n_iter_def find_jumps_def
      make_blur_list_scaled_closed upt_rec eval_nat_numeral)

section \<open>The dual scaling rule\<close>

text \<open>
  C8. An instance built with the constants \<^verbatim>\<open>(eps, rho)\<close> multiplies its input by
  \<^verbatim>\<open>rho + eps/2\<close> in \<^verbatim>\<open>forward\<close> and the upstream gradient by \<^verbatim>\<open>rho + eps\<close> in
  \<^verbatim>\<open>backward\<close>; with \<^verbatim>\<open>eps=2, rho=3\<close> the value 4 becomes 16 and 20; the two
  rules agree on every input only when \<^verbatim>\<open>eps = 0\<close>.
\<close>

theorem UnbalancedWeight_scaling:
  "forward \<lparr>eps = e, rho = r\<rparr> x = map (\<lambda>v. (r + e / 2) * v) x
   \<and> backward \<lparr>eps = e, rho = r\<rparr> g = map (\<lambda>v. (r + e) * v) g
   \<and> forward \<lparr>eps = 2, rho = 3\<rparr> [4] = [16]
   \<and> backward \<lparr>eps = 2, rho = 3\<rparr> [4] = [20]
   \<and> ((\<forall>x. forward \<lparr>eps = e, rho = r\<rparr> x = backward \<lparr>eps = e, rho = r\<rparr> x) = (e = 0))"
proof -
  have "(\<forall>x. forward \<lparr>eps = e, rho = r\<rparr> x = backward \<lparr>eps = e, rho = r\<rparr> x) = (e = 0)"
  proof
    assume "\<forall>x. forward \<lparr>eps = e, rho = r\<rparr> x = backward \<lparr>eps = e, rho = r\<rparr> x"
    then have "forward \<lparr>eps = e, rho = r\<rparr> [1] = backward \<lparr>eps = e, rho = r\<rparr> [1]" by blast
    then show "e = 0" by (simp add: forward_def backward_def)
  next
    assume "e = 0"
    then show "\<forall>x. forward \<lparr>eps = e, rho = r\<rparr> x = backward \<lparr>eps = e, rho = r\<rparr> x"
      by (simp add: forward_def backward_def)
  qed
  then show ?thesis by (simp add: forward_def backward_def)
qed

end
